theory Spec2Isabelle
  imports Main "HOL-Library.Word"
begin

unbundle bit_operations_syntax

section \<open>Bytes, errors and checked buffer accesses\<close>

text \<open>
  A Go \<open>[]byte\<close> is a list of 8-bit words, a Go \<open>int\<close> an integer (on the paths modelled
  here no \<open>int\<close> ever exceeds the buffer length plus 255, so the 64-bit bound plays no
  role), a Go \<open>string\<close> a list of 8-bit characters, and \<open>uint16\<close> a 16-bit word.
\<close>

type_synonym byte = "8 word"
type_synonym uint16 = "16 word"

text \<open>
  The four error values the decoders build with \<open>errors.New\<close>:
  "offset beyond packet length", "incomplete domain name", "incomplete label" and
  "packet too short for question section".
\<close>

datatype error =
    OffsetBeyondPacketLength
  | IncompleteDomainName
  | IncompleteLabel
  | PacketTooShortForQuestion

text \<open>
  What a call yields: its values (\<open>Ok\<close>), a returned error (\<open>Err\<close>; the other results
  are then Go's zero values), or a run-time panic of an index or slice expression that
  leaves the buffer (\<open>Panic\<close>), which nothing in the program recovers.
\<close>

datatype 'a result = Ok 'a | Err error | Panic

fun and_then :: "'a result \<Rightarrow> ('a \<Rightarrow> 'b result) \<Rightarrow> 'b result" where
  "and_then (Ok x) f = f x"
| "and_then (Err e) f = Err e"
| "and_then Panic f = Panic"

text \<open>\<open>buf[i]\<close> as a read: panics unless \<open>0 \<le> i < len(buf)\<close>.\<close>

definition index :: "byte list \<Rightarrow> int \<Rightarrow> byte result" where
  "index buf i = (if 0 \<le> i \<and> i < int (length buf) then Ok (buf ! nat i) else Panic)"

text \<open>\<open>buf[i] = v\<close>: panics unless \<open>0 \<le> i < len(buf)\<close>.\<close>

definition store :: "byte list \<Rightarrow> int \<Rightarrow> byte \<Rightarrow> byte list result" where
  "store buf i v = (if 0 \<le> i \<and> i < int (length buf) then Ok (buf[nat i := v]) else Panic)"

text \<open>
  \<open>buf[lo:hi]\<close> as a value: panics unless \<open>0 \<le> lo \<le> hi \<le> cap(buf)\<close>. The buffers sliced
  here are either made by \<open>make\<close> with capacity equal to length, or sliced only after an
  explicit test of \<open>hi\<close> against \<open>len(buf)\<close>, so the length stands for the capacity.
\<close>

definition slice :: "byte list \<Rightarrow> int \<Rightarrow> int \<Rightarrow> byte list result" where
  "slice buf lo hi =
     (if 0 \<le> lo \<and> lo \<le> hi \<and> hi \<le> int (length buf)
      then Ok (take (nat (hi - lo)) (drop (nat lo) buf)) else Panic)"

text \<open>The built-in \<open>copy(dst, src)\<close>: the first \<open>min(len(dst), len(src))\<close> bytes are replaced.\<close>

definition copy_bytes :: "byte list \<Rightarrow> byte list \<Rightarrow> byte list" where
  "copy_bytes dst src = (let n = min (length dst) (length src) in take n src @ drop n dst)"

text \<open>
  \<open>copy(buf[lo:hi], src)\<close>: the slice shares the buffer's memory, so the copy lands
  in \<open>buf\<close> at \<open>lo\<close>.
\<close>

definition copy_to_slice :: "byte list \<Rightarrow> int \<Rightarrow> int \<Rightarrow> byte list \<Rightarrow> byte list result" where
  "copy_to_slice buf lo hi src =
     and_then (slice buf lo hi)
       (\<lambda>window. Ok (take (nat lo) buf @ copy_bytes window src @ drop (nat hi) buf))"

text \<open>\<open>[]byte(s)\<close> and \<open>string(bs)\<close>: the same bytes.\<close>

definition bytes_of :: "string \<Rightarrow> byte list" where
  "bytes_of s = map of_char s"

definition string_of :: "byte list \<Rightarrow> string" where
  "string_of bs = map (\<lambda>b. char_of (unat b)) bs"

text \<open>\<open>uint16(hi)<<8 | uint16(lo)\<close>.\<close>

definition be16 :: "byte \<Rightarrow> byte \<Rightarrow> uint16" where
  "be16 hi lo = push_bit 8 (ucast hi) OR ucast lo"

section \<open>createResponse\<close>

definition createResponse :: "byte list \<Rightarrow> byte list result" where
  "createResponse query =
    (let response = replicate (length query) 0;
         response = copy_bytes response query
     in and_then (index response 2) (\<lambda>flags_hi.
        and_then (store response 2 (flags_hi OR 0x80)) (\<lambda>response.
        and_then (store response 4 0x00) (\<lambda>response.
        and_then (store response 5 0x01) (\<lambda>response.
        let offset = 12 in
        and_then (store response offset 0x0c) (\<lambda>response.
        and_then (copy_to_slice response (offset + 1) (offset + 13) (bytes_of ''localdns''))
          (\<lambda>response.
        let offset = offset + 13 in
        and_then (store response offset 0x02) (\<lambda>response.
        and_then (copy_to_slice response (offset + 1) (offset + 3) (bytes_of ''io''))
          (\<lambda>response.
        let offset = offset + 3 in
        and_then (store response offset 0x00) (\<lambda>response.
        let offset = offset + 1 in
        and_then (store response offset 0x00) (\<lambda>response.
        and_then (store response (offset + 1) 0x01) (\<lambda>response.
        let offset = offset + 2 in
        and_then (store response offset 0x00) (\<lambda>response.
        and_then (store response (offset + 1) 0x01) (\<lambda>response.
        Ok response))))))))))))))"

section \<open>parseDomainName\<close>

text \<open>
  One pass through the body of the \<open>for\<close> loop, from the state \<open>(pos, domain, bytesRead)\<close>:
  either the loop is left (\<open>Exit\<close>: by \<open>break\<close>, whose result is the \<open>return\<close> after the
  loop, by a \<open>return\<close> of an error, or by a panic), or the next pass starts (\<open>Next\<close>).
\<close>

datatype iteration = Next int string int | Exit "(string \<times> int) result"

definition parseDomainName_body :: "byte list \<Rightarrow> int \<Rightarrow> string \<Rightarrow> int \<Rightarrow> iteration" where
  "parseDomainName_body packet pos domain bytesRead =
    (if pos \<ge> int (length packet) then Exit (Err IncompleteDomainName)
     else case index packet pos of
       Panic \<Rightarrow> Exit Panic
     | Err e \<Rightarrow> Exit (Err e)
     | Ok b \<Rightarrow>
        (let len = uint b in
         if len = 0 then Exit (Ok (domain, bytesRead + 1))
         else
          (let pos = pos + 1;
               bytesRead = bytesRead + 1
           in if pos + len > int (length packet) then Exit (Err IncompleteLabel)
              else
               (let domain = (if domain \<noteq> [] then domain @ ''.'' else domain)
                in case slice packet pos (pos + len) of
                     Panic \<Rightarrow> Exit Panic
                   | Err e \<Rightarrow> Exit (Err e)
                   | Ok label \<Rightarrow>
                       Next (pos + len) (domain @ string_of label) (bytesRead + len)))))"

text \<open>The loop itself; \<open>None\<close> stands for a loop that never ends.\<close>

partial_function (option) parseDomainName_loop ::
  "byte list \<Rightarrow> int \<Rightarrow> string \<Rightarrow> int \<Rightarrow> (string \<times> int) result option" where
  "parseDomainName_loop packet pos domain bytesRead =
    (case parseDomainName_body packet pos domain bytesRead of
       Exit r \<Rightarrow> Some r
     | Next pos' domain' bytesRead' \<Rightarrow> parseDomainName_loop packet pos' domain' bytesRead')"

declare parseDomainName_loop.simps [code]

definition parseDomainName :: "byte list \<Rightarrow> int \<Rightarrow> (string \<times> int) result option" where
  "parseDomainName packet offset =
    (if offset \<ge> int (length packet) then Some (Err OffsetBeyondPacketLength)
     else parseDomainName_loop packet offset [] 0)"

section \<open>parseQuestion\<close>

definition parseQuestion ::
  "byte list \<Rightarrow> int \<Rightarrow> (string \<times> uint16 \<times> uint16 \<times> int) result option" where
  "parseQuestion packet offset =
    map_option (\<lambda>name.
      and_then name (\<lambda>(domain, nameBytes).
        let bytesRead = nameBytes
        in if offset + bytesRead + 4 > int (length packet) then Err PacketTooShortForQuestion
           else
            and_then (index packet (offset + bytesRead)) (\<lambda>t_hi.
            and_then (index packet (offset + bytesRead + 1)) (\<lambda>t_lo.
            let qtype = be16 t_hi t_lo;
                bytesRead = bytesRead + 2
            in and_then (index packet (offset + bytesRead)) (\<lambda>c_hi.
               and_then (index packet (offset + bytesRead + 1)) (\<lambda>c_lo.
               let qclass = be16 c_hi c_lo;
                   bytesRead = bytesRead + 2
               in Ok (domain, qtype, qclass, bytesRead)))))))
      (parseDomainName packet offset)"

section \<open>Header fields, as HandleDNSPacket reads them\<close>

text \<open>
  HandleDNSPacket reads the ID, the flags and QDCOUNT from bytes 0 to 5 of a packet of
  at least 12 bytes, each as a big-endian 16-bit value. In the flags, bit 15 is QR, bits
  14 to 11 the Opcode, bit 10 AA, bit 9 TC, bit 8 RD, bit 7 RA and bits 3 to 0 the RCODE.
  ANCOUNT is bytes 6 and 7, NSCOUNT bytes 8 and 9, ARCOUNT bytes 10 and 11; the program
  never reads them, and the statements below name those bytes directly.
\<close>

definition header_id :: "byte list \<Rightarrow> uint16" where
  "header_id packet = be16 (packet ! 0) (packet ! 1)"

definition header_flags :: "byte list \<Rightarrow> uint16" where
  "header_flags packet = be16 (packet ! 2) (packet ! 3)"

definition header_qdcount :: "byte list \<Rightarrow> uint16" where
  "header_qdcount packet = be16 (packet ! 4) (packet ! 5)"

section \<open>Test datagrams\<close>

text \<open>
  A 33-byte query, ID \<open>0x1234\<close>, flags \<open>0x0100\<close> (only RD set), QDCOUNT 1, the other
  counts 0, and the question \<open>(codecrafters.io, A, IN)\<close>; and the same datagram with
  another QTYPE (28, AAAA) or another ANCOUNT field.
\<close>

definition query_with :: "byte \<Rightarrow> byte \<Rightarrow> byte list" where
  "query_with ancount_lo qtype_lo =
     [0x12, 0x34, 0x01, 0x00, 0x00, 0x01, 0x00, ancount_lo, 0x00, 0x00, 0x00, 0x00, 0x0c]
     @ bytes_of ''codecrafters'' @ [0x02] @ bytes_of ''io''
     @ [0x00, 0x00, qtype_lo, 0x00, 0x01]"

definition example_query :: "byte list" where
  "example_query = query_with 0x00 0x01"

text \<open>
  The 33 bytes createResponse returns for them (shown below): the header with QR set,
  and a question whose first label is \<open>localdns\<close> followed by the last four bytes of
  \<open>codecrafters\<close>.
\<close>

definition response_with :: "byte \<Rightarrow> byte list" where
  "response_with ancount_lo =
     [0x12, 0x34, 0x81, 0x00, 0x00, 0x01, 0x00, ancount_lo, 0x00, 0x00, 0x00, 0x00, 0x0c]
     @ bytes_of ''localdnsters'' @ [0x02] @ bytes_of ''io''
     @ [0x00, 0x00, 0x01, 0x00, 0x01]"

section \<open>Facts about the conversions\<close>

lemma unat_of_char_byte: "unat (of_char c :: byte) = of_char c"
proof -
  have "(of_char c :: byte) = of_nat (of_char c)"
    by (simp add: of_nat_of_char)
  then have "unat (of_char c :: byte) = (of_char c :: nat) mod 256"
    by (simp only: unat_of_nat) simp
  then show ?thesis by simp
qed

lemma string_of_bytes_of: "string_of (bytes_of s) = s"
  by (simp add: string_of_def bytes_of_def unat_of_char_byte map_idI)

section \<open>One pass of the label loop\<close>

lemma parseDomainName_body_Next:
  assumes "parseDomainName_body packet pos domain bytesRead = Next pos' domain' bytesRead'"
  shows "0 \<le> pos" and "pos < pos'" and "pos' \<le> int (length packet)"
    and "bytesRead' - bytesRead = pos' - pos"
    and "pos' = pos + 1 + uint (packet ! nat pos)"
    and "domain' = (if domain \<noteq> [] then domain @ ''.'' else domain)
           @ string_of (take (nat (uint (packet ! nat pos))) (drop (nat (pos + 1)) packet))"
  using assms
  by (auto simp: parseDomainName_body_def index_def slice_def Let_def uint_0_iff
      add_pos_nonneg split: if_splits)

lemma parseDomainName_body_Exit_Ok:
  assumes "parseDomainName_body packet pos domain bytesRead = Exit (Ok (domain', bytesRead'))"
  shows "0 \<le> pos" and "pos < int (length packet)" and "packet ! nat pos = 0"
    and "domain' = domain" and "bytesRead' = bytesRead + 1"
  using assms
  by (auto simp: parseDomainName_body_def index_def slice_def Let_def uint_0_iff
      add_pos_nonneg split: if_splits)

lemma parseDomainName_body_Exit_Panic:
  assumes "parseDomainName_body packet pos domain bytesRead = Exit Panic"
  shows "pos < 0"
  using assms
  by (auto simp: parseDomainName_body_def index_def slice_def Let_def uint_0_iff
      add_pos_nonneg split: if_splits)

lemma loop_Exit:
  "parseDomainName_body packet pos domain bytesRead = Exit r \<Longrightarrow>
   parseDomainName_loop packet pos domain bytesRead = Some r"
  by (subst parseDomainName_loop.simps) simp

lemma loop_Next:
  "parseDomainName_body packet pos domain bytesRead = Next pos' domain' bytesRead' \<Longrightarrow>
   parseDomainName_loop packet pos domain bytesRead =
   parseDomainName_loop packet pos' domain' bytesRead'"
  by (subst parseDomainName_loop.simps) simp

section \<open>The label loop ends\<close>

text \<open>
  Every pass that goes on moves \<open>pos\<close> forward and keeps it within the packet, so
  \<open>len(packet) - pos\<close> shrinks: induction on that distance.
\<close>

lemma loop_returns:
  "\<exists>r. parseDomainName_loop packet pos domain bytesRead = Some r"
proof (induction "nat (int (length packet) - pos)" arbitrary: pos domain bytesRead
    rule: less_induct)
  case less
  show ?case
  proof (cases "parseDomainName_body packet pos domain bytesRead")
    case (Exit r)
    then show ?thesis by (simp add: loop_Exit)
  next
    case (Next p' d' b')
    from parseDomainName_body_Next(1-3)[OF Next]
    have "nat (int (length packet) - p') < nat (int (length packet) - pos)" by linarith
    from less[OF this] show ?thesis by (simp add: loop_Next[OF Next])
  qed
qed

lemma loop_no_panic:
  "0 \<le> pos \<Longrightarrow> parseDomainName_loop packet pos domain bytesRead \<noteq> Some Panic"
proof (induction "nat (int (length packet) - pos)" arbitrary: pos domain bytesRead
    rule: less_induct)
  case less
  show ?case
  proof (cases "parseDomainName_body packet pos domain bytesRead")
    case (Exit r)
    with less.prems parseDomainName_body_Exit_Panic show ?thesis
      by (fastforce simp: loop_Exit)
  next
    case (Next p' d' b')
    from parseDomainName_body_Next(1-3)[OF Next]
    have m: "nat (int (length packet) - p') < nat (int (length packet) - pos)"
      and p: "0 \<le> p'" by linarith+
    from less.hyps[OF m p] show ?thesis by (simp add: loop_Next[OF Next])
  qed
qed

section \<open>Decoding a truncated packet\<close>

text \<open>
  \<open>take k packet\<close> is the Go slice \<open>packet[:k]\<close>: the same bytes, cut at \<open>k\<close>.
\<close>

lemma body_Next_iff:
  "parseDomainName_body packet pos d b = Next p1 d1 b1 \<longleftrightarrow>
     0 \<le> pos \<and> pos < int (length packet) \<and> packet ! nat pos \<noteq> 0
     \<and> p1 = pos + 1 + uint (packet ! nat pos) \<and> p1 \<le> int (length packet)
     \<and> d1 = (if d \<noteq> [] then d @ ''.'' else d)
           @ string_of (take (unat (packet ! nat pos)) (drop (nat (pos + 1)) packet))
     \<and> b1 = b + 1 + uint (packet ! nat pos)"
  by (auto simp: parseDomainName_body_def index_def slice_def Let_def uint_0_iff
      add_pos_nonneg split: if_splits)

lemma body_Exit_Ok_iff:
  "parseDomainName_body packet pos d b = Exit (Ok x) \<longleftrightarrow>
     0 \<le> pos \<and> pos < int (length packet) \<and> packet ! nat pos = 0 \<and> x = (d, b + 1)"
  by (auto simp: parseDomainName_body_def index_def slice_def Let_def uint_0_iff
      add_pos_nonneg split: if_splits)

lemma body_take_Next:
  assumes "parseDomainName_body packet pos d b = Next p1 d1 b1" and "p1 \<le> int k"
  shows "parseDomainName_body (take k packet) pos d b = Next p1 d1 b1"
proof -
  let ?n = "packet ! nat pos"
  from assms(1) have f: "0 \<le> pos" "pos < int (length packet)" "?n \<noteq> 0"
    "p1 = pos + 1 + uint ?n" "p1 \<le> int (length packet)"
    "d1 = (if d \<noteq> [] then d @ ''.'' else d)
           @ string_of (take (unat ?n) (drop (nat (pos + 1)) packet))"
    "b1 = b + 1 + uint ?n"
    by (simp_all add: body_Next_iff)
  have u: "uint ?n = int (unat ?n)" by (rule uint_nat)
  have a: "nat (pos + 1) + unat ?n \<le> k" "nat pos < k"
    using f(1,4) assms(2) unfolding u by linarith+
  have t: "take (unat ?n) (drop (nat (pos + 1)) (take k packet))
      = take (unat ?n) (drop (nat (pos + 1)) packet)"
    using a(1) by (simp add: drop_take min_def)
  have n: "take k packet ! nat pos = ?n"
    using a(2) by simp
  have l: "pos < int (length (take k packet))" "p1 \<le> int (length (take k packet))"
    using f(1,2,5) a(2) assms(2) by simp_all
  show ?thesis
    unfolding body_Next_iff n t using f l by simp
qed

lemma body_take_short:
  assumes "parseDomainName_body packet pos d b = Next p1 d1 b1" and "int k < p1"
  shows "\<exists>e. parseDomainName_body (take k packet) pos d b = Exit (Err e)"
proof (cases "int k \<le> pos")
  case True
  then have "int (length (take k packet)) \<le> pos" by (simp add: min_def)
  then show ?thesis by (simp add: parseDomainName_body_def)
next
  case False
  let ?n = "packet ! nat pos"
  from assms(1) have f: "0 \<le> pos" "pos < int (length packet)" "?n \<noteq> 0"
    "p1 = pos + 1 + uint ?n" 
    by (simp_all add: body_Next_iff)
  have n: "take k packet ! nat pos = ?n"
    using False f(1) by simp
  have l: "pos < int (length (take k packet))" "int (length (take k packet)) < p1"
    using f(1,2) False assms(2) by simp_all
  show ?thesis
    using f l by (simp add: parseDomainName_body_def index_def n uint_0_iff Let_def)
qed

lemma body_take_Exit_short:
  assumes "int k \<le> pos"
  shows "parseDomainName_body (take k packet) pos d b = Exit (Err IncompleteDomainName)"
proof -
  from assms have "int (length (take k packet)) \<le> pos" by (simp add: min_def)
  then show ?thesis by (simp add: parseDomainName_body_def)
qed

lemma body_take_Exit:
  assumes "parseDomainName_body packet pos d b = Exit (Ok x)" and "pos < int k"
  shows "parseDomainName_body (take k packet) pos d b = Exit (Ok x)"
proof -
  from assms(1) have f: "0 \<le> pos" "pos < int (length packet)" "packet ! nat pos = 0"
    "x = (d, b + 1)"
    by (simp_all add: body_Exit_Ok_iff)
  have n: "take k packet ! nat pos = 0"
    using assms(2) f(1,3) by simp
  show ?thesis
    unfolding body_Exit_Ok_iff n using f assms(2) by simp
qed

lemma loop_take:
  assumes "parseDomainName_loop packet pos d b = Some (Ok (d', b'))"
  shows "(int k < pos + (b' - b) \<longrightarrow> (\<exists>e. parseDomainName_loop (take k packet) pos d b = Some (Err e)))
       \<and> (pos + (b' - b) \<le> int k \<longrightarrow> parseDomainName_loop (take k packet) pos d b = Some (Ok (d', b')))
       \<and> pos + (b' - b) \<le> int (length packet) \<and> 0 \<le> pos \<and> b < b'"
  using assms
proof (induction "nat (int (length packet) - pos)" arbitrary: pos d b
    rule: less_induct)
  case less
  show ?case
  proof (cases "parseDomainName_body packet pos d b")
    case (Exit r)
    with less.prems have r: "r = Ok (d', b')" by (simp add: loop_Exit)
    note ex = Exit[unfolded r]
    from parseDomainName_body_Exit_Ok[OF ex] 
    have f: "0 \<le> pos" "pos < int (length packet)" "b' = b + 1" by auto
    show ?thesis
      using f body_take_Exit_short[of k pos packet d b] body_take_Exit[OF ex, of k]
      by (auto simp: loop_Exit)
  next
    case (Next p1 d1 b1)
    note n = parseDomainName_body_Next(1-4)[OF Next]
    from n have m: "nat (int (length packet) - p1) < nat (int (length packet) - pos)"
      by linarith
    from less.prems have l1: "parseDomainName_loop packet p1 d1 b1 = Some (Ok (d', b'))"
      by (simp add: loop_Next[OF Next])
    note ih = less.hyps[OF m l1]
    show ?thesis
    proof (cases "p1 \<le> int k")
      case True
      from body_take_Next[OF Next True]
      have "parseDomainName_loop (take k packet) pos d b = parseDomainName_loop (take k packet) p1 d1 b1"
        by (rule loop_Next)
      with ih n show ?thesis by auto
    next
      case False
      then have "int k < p1" by simp
      from body_take_short[OF Next this] obtain e where
        "parseDomainName_body (take k packet) pos d b = Exit (Err e)" ..
      then have "parseDomainName_loop (take k packet) pos d b = Some (Err e)"
        by (rule loop_Exit)
      with ih n False show ?thesis by auto
    qed
  qed
qed


section \<open>parseDomainName and parseQuestion on any packet\<close>

lemma parseDomainName_Ok:
  assumes "parseDomainName packet offset = Some (Ok (d, nb))"
  shows "0 \<le> offset" and "0 < nb" and "offset + nb \<le> int (length packet)"
proof -
  from assms have l: "parseDomainName_loop packet offset [] 0 = Some (Ok (d, nb))"
    by (simp add: parseDomainName_def split: if_splits)
  from loop_take[OF l, of 0] show "0 \<le> offset" and "0 < nb"
    and "offset + nb \<le> int (length packet)" by simp_all
qed

lemma parseDomainName_take:
  assumes "parseDomainName packet offset = Some (Ok (d, nb))"
  shows "int k < offset + nb \<Longrightarrow> \<exists>e. parseDomainName (take k packet) offset = Some (Err e)"
    and "offset + nb \<le> int k \<Longrightarrow> parseDomainName (take k packet) offset = Some (Ok (d, nb))"
proof -
  from assms have l: "parseDomainName_loop packet offset [] 0 = Some (Ok (d, nb))"
    by (simp add: parseDomainName_def split: if_splits)
  note t = loop_take[OF l, of k]
  show "\<exists>e. parseDomainName (take k packet) offset = Some (Err e)" if "int k < offset + nb"
    using t that by (simp add: parseDomainName_def)
  show "parseDomainName (take k packet) offset = Some (Ok (d, nb))" if "offset + nb \<le> int k"
  proof -
    from t that have "offset < int (length (take k packet))" by (simp add: min_def)
    with t that show ?thesis by (simp add: parseDomainName_def)
  qed
qed

lemma parseDomainName_no_panic:
  "0 \<le> offset \<Longrightarrow> parseDomainName packet offset \<noteq> Some Panic"
  by (simp add: parseDomainName_def loop_no_panic)

lemma parseDomainName_returns: "\<exists>r. parseDomainName packet offset = Some r"
  by (simp add: parseDomainName_def loop_returns)

lemma parseQuestion_name_Err:
  "parseDomainName packet offset = Some (Err e) \<Longrightarrow> parseQuestion packet offset = Some (Err e)"
  by (simp add: parseQuestion_def)

lemma parseQuestion_name_Ok:
  assumes "parseDomainName packet offset = Some (Ok (d, nb))"
  shows "parseQuestion packet offset = Some
     (if offset + nb + 4 > int (length packet) then Err PacketTooShortForQuestion
      else Ok (d, be16 (packet ! nat (offset + nb)) (packet ! nat (offset + nb + 1)),
               be16 (packet ! nat (offset + nb + 2)) (packet ! nat (offset + nb + 3)),
               nb + 4))"
  using assms parseDomainName_Ok(1,2)[OF assms]
  by (simp add: parseQuestion_def index_def Let_def ac_simps)

lemma parseQuestion_Ok:
  assumes "parseQuestion packet offset = Some (Ok (d, qt, qc, n))"
  shows "parseDomainName packet offset = Some (Ok (d, n - 4))"
    and "offset + n \<le> int (length packet)"
proof -
  obtain r where r: "parseDomainName packet offset = Some r"
    using parseDomainName_returns by blast
  from assms r obtain d0 nb where ok: "r = Ok (d0, nb)"
    by (cases r) (auto simp: parseQuestion_def)
  from assms parseQuestion_name_Ok[OF r[unfolded ok]]
  show "parseDomainName packet offset = Some (Ok (d, n - 4))"
    and "offset + n \<le> int (length packet)"
    using r ok by (auto split: if_splits)
qed

lemma parseQuestion_result:
  assumes "0 \<le> offset"
  shows "(\<exists>v. parseQuestion packet offset = Some (Ok v))
       \<or> (\<exists>e. parseQuestion packet offset = Some (Err e))"
proof -
  obtain r where r: "parseDomainName packet offset = Some r"
    using parseDomainName_returns by blast
  show ?thesis
  proof (cases r)
    case (Ok x)
    obtain d nb where "x = (d, nb)" by (cases x)
    with r Ok parseQuestion_name_Ok[of packet offset d nb] show ?thesis by auto
  next
    case (Err e)
    with r parseQuestion_name_Err show ?thesis by auto
  next
    case Panic
    with r parseDomainName_no_panic[OF assms, of packet] show ?thesis by simp
  qed
qed

lemma parseQuestion_take:
  assumes "parseQuestion packet offset = Some (Ok (d, qt, qc, n))" and "int k < offset + n"
  shows "\<exists>e. parseQuestion (take k packet) offset = Some (Err e)"
proof -
  note nm = parseQuestion_Ok[OF assms(1)]
  show ?thesis
  proof (cases "int k < offset + (n - 4)")
    case True
    from parseDomainName_take(1)[OF nm(1) True] parseQuestion_name_Err show ?thesis
      by blast
  next
    case False
    then have "offset + (n - 4) \<le> int k" by simp
    from parseDomainName_take(2)[OF nm(1) this]
    have "parseDomainName (take k packet) offset = Some (Ok (d, n - 4))" .
    from parseQuestion_name_Ok[OF this] assms(2) show ?thesis by (simp add: min_def)
  qed
qed

text \<open>
  C8. From a non-negative offset, parseDomainName and parseQuestion end in one of two
  ways on every packet: with their values, or with one of the four errors, each of which
  reports that the packet ends before a byte that is needed (the start offset, a length
  byte or the terminator, the bytes of a label, QTYPE and QCLASS). They never end in the
  panic of an index or slice expression that leaves the packet. And when a question
  decodes at \<open>offset\<close> and takes \<open>bytesRead\<close> bytes, the packet cut anywhere before
  \<open>offset + bytesRead\<close> makes parseQuestion return an error.
\<close>

theorem decoders_stay_in_bounds:
  "(0 \<le> offset \<longrightarrow>
      ((\<exists>v. parseDomainName packet offset = Some (Ok v))
        \<or> (\<exists>e. parseDomainName packet offset = Some (Err e)))
    \<and> ((\<exists>v. parseQuestion packet offset = Some (Ok v))
        \<or> (\<exists>e. parseQuestion packet offset = Some (Err e))))
   \<and> (parseQuestion packet offset = Some (Ok (domain, qtype, qclass, bytesRead))
        \<and> int k < offset + bytesRead
      \<longrightarrow> (\<exists>e. parseQuestion (take k packet) offset = Some (Err e)))"
proof -
  have "(\<exists>v. parseDomainName packet offset = Some (Ok v))
        \<or> (\<exists>e. parseDomainName packet offset = Some (Err e))" if "0 \<le> offset"
  proof -
    obtain r where r: "parseDomainName packet offset = Some r"
      using parseDomainName_returns by blast
    with parseDomainName_no_panic[OF that, of packet] show ?thesis by (cases r) auto
  qed
  then show ?thesis
    using parseQuestion_result[of offset packet]
      parseQuestion_take[of packet offset domain qtype qclass bytesRead k]
    by blast
qed


theorem decoders_stay_in_bounds_witness:
  "(0::int) \<le> 0
   \<and> parseDomainName [1, 97, 0, 0, 1, 0, 1] 0 = Some (Ok (''a'', 3))
   \<and> parseQuestion [1, 97, 0, 0, 1, 0, 1] 0 = Some (Ok (''a'', 1, 1, 7))
   \<and> int 4 < 0 + 7
   \<and> parseQuestion (take 4 [1, 97, 0, 0, 1, 0, 1]) 0 = Some (Err PacketTooShortForQuestion)"
  using decoders_stay_in_bounds[where offset = 0 and packet = "[1, 97, 0, 0, 1, 0, 1]"
      and domain = "''a''" and qtype = 1 and qclass = 1 and bytesRead = 7 and k = 4]
  by (simp add: parseQuestion_def parseDomainName_def parseDomainName_loop.simps
      parseDomainName_body_def index_def slice_def string_of_def char_of_def bit_0 be16_def)

section \<open>How the label loop ends\<close>

lemma loop_Ok_ends_at_zero:
  assumes "parseDomainName_loop packet pos d b = Some (Ok (d', b'))"
  shows "packet ! nat (pos + (b' - b) - 1) = 0"
  using assms
proof (induction "nat (int (length packet) - pos)" arbitrary: pos d b rule: less_induct)
  case less
  show ?case
  proof (cases "parseDomainName_body packet pos d b")
    case (Exit r)
    with less.prems have "parseDomainName_body packet pos d b = Exit (Ok (d', b'))"
      by (simp add: loop_Exit)
    from parseDomainName_body_Exit_Ok(3,5)[OF this] show ?thesis by simp
  next
    case (Next p1 d1 b1)
    note n = parseDomainName_body_Next(1-4)[OF Next]
    from n have m: "nat (int (length packet) - p1) < nat (int (length packet) - pos)"
      by linarith
    from less.prems have "parseDomainName_loop packet p1 d1 b1 = Some (Ok (d', b'))"
      by (simp add: loop_Next[OF Next])
    from less.hyps[OF m this] have "packet ! nat (p1 + (b' - b1) - 1) = 0" .
    moreover from n(4) have "p1 + (b' - b1) - 1 = pos + (b' - b) - 1" by linarith
    ultimately show ?thesis by simp
  qed
qed

text \<open>
  C9, as stated, fails at a negative offset: the loop ends there neither with an error
  nor at a label of length zero, but with the panic of \<open>packet[pos]\<close>.
\<close>

theorem negative_offset_panics:
  "parseDomainName [0x00] (- 1) = Some Panic"
  by (simp add: parseDomainName_def parseDomainName_loop.simps parseDomainName_body_def
      index_def)

text \<open>
  C9, amended. parseDomainName returns on every packet and every offset: its label loop,
  started in any state, ends after finitely many passes, because a pass that does not
  leave the loop strictly increases the read position and leaves it at most at the
  packet length. From every non-negative offset it ends in one of two ways: it returns
  an error, or it reaches a label of length zero (the last byte read is 0) and returns
  the name.
\<close>

theorem parseDomainName_terminates:
  "(\<exists>r. parseDomainName packet offset = Some r)
   \<and> (\<exists>r. parseDomainName_loop packet pos domain bytesRead = Some r)
   \<and> (parseDomainName_body packet pos domain bytesRead = Next pos' domain' bytesRead'
        \<longrightarrow> pos < pos' \<and> pos' \<le> int (length packet))
   \<and> (0 \<le> offset \<longrightarrow>
        (\<exists>e. parseDomainName packet offset = Some (Err e))
        \<or> (\<exists>name n. parseDomainName packet offset = Some (Ok (name, n))
              \<and> 0 < n \<and> offset + n \<le> int (length packet)
              \<and> packet ! nat (offset + n - 1) = 0))"
proof -
  have last: "(\<exists>e. parseDomainName packet offset = Some (Err e))
        \<or> (\<exists>name n. parseDomainName packet offset = Some (Ok (name, n))
              \<and> 0 < n \<and> offset + n \<le> int (length packet)
              \<and> packet ! nat (offset + n - 1) = 0)" if nonneg: "0 \<le> offset"
  proof -
    obtain r where r: "parseDomainName packet offset = Some r"
      using parseDomainName_returns by blast
    show ?thesis
    proof (cases r)
      case (Ok x)
      obtain name n where x: "x = (name, n)" by (cases x)
      from r Ok x have ok: "parseDomainName packet offset = Some (Ok (name, n))" by simp
      then have l: "parseDomainName_loop packet offset [] 0 = Some (Ok (name, n))"
        by (simp add: parseDomainName_def split: if_splits)
      from loop_Ok_ends_at_zero[OF l] have z: "packet ! nat (offset + n - 1) = 0" by simp
      from ok z parseDomainName_Ok(2,3)[OF ok] show ?thesis by simp
    next
      case (Err e)
      with r show ?thesis by simp
    next
      case Panic
      with r parseDomainName_no_panic[OF nonneg, of packet] show ?thesis by simp
    qed
  qed
  show ?thesis
    using loop_returns[of packet offset "[]" 0] loop_returns[of packet pos domain bytesRead]
      parseDomainName_body_Next(2,3)[of packet pos domain bytesRead pos' domain' bytesRead']
      last
    by (simp add: parseDomainName_def)
qed

theorem parseDomainName_terminates_witness:
  "parseDomainName_body [3, 97, 98, 99, 0] 0 [] 0 = Next 4 ''abc'' 4
   \<and> (0::int) < 4 \<and> (4::int) \<le> int (length [3, 97, 98, 99, 0 :: byte])
   \<and> (0::int) \<le> 0
   \<and> parseDomainName [3, 97, 98, 99, 0] 0 = Some (Ok (''abc'', 5))
   \<and> (0::int) < 5 \<and> (0::int) + 5 \<le> int (length [3, 97, 98, 99, 0 :: byte])
   \<and> [3, 97, 98, 99, 0 :: byte] ! nat (0 + 5 - 1) = 0"
  using parseDomainName_terminates[where packet = "[3, 97, 98, 99, 0]" and offset = 0
      and pos = 0 and domain = "[]" and bytesRead = 0 and pos' = 4 and domain' = "''abc''"
      and bytesRead' = 4]
  by (simp add: parseDomainName_def parseDomainName_loop.simps parseDomainName_body_def
      index_def slice_def string_of_def char_of_def bit_0)

section \<open>createResponse: when it returns, and what\<close>

lemma split33:
  assumes "33 \<le> length (q :: 'a list)"
  obtains b0 b1 b2 b3 b4 b5 b6 b7 b8 b9 b10 b11 b12 b13 b14 b15 b16 b17 b18 b19 b20
    b21 b22 b23 b24 b25 b26 b27 b28 b29 b30 b31 b32 rest
  where "q = b0 # b1 # b2 # b3 # b4 # b5 # b6 # b7 # b8 # b9 # b10 # b11 # b12 # b13 # b14 #
     b15 # b16 # b17 # b18 # b19 # b20 # b21 # b22 # b23 # b24 # b25 # b26 # b27 # b28 # b29 #
     b30 # b31 # b32 # rest"
  using assms by (auto simp: Suc_le_length_iff eval_nat_numeral)

lemma and_then_Ok_iff: "and_then m f = Ok r \<longleftrightarrow> (\<exists>x. m = Ok x \<and> f x = Ok r)"
  by (cases m) simp_all

lemma store_Ok_iff:
  "store buf i v = Ok r \<longleftrightarrow> 0 \<le> i \<and> i < int (length buf) \<and> r = buf[nat i := v]"
  by (auto simp: store_def)


lemma and_then_OkE:
  assumes "and_then m f = Ok r"
  obtains x where "m = Ok x" and "f x = Ok r"
  using assms by (cases m) simp_all

lemma length_copy_bytes: "length (copy_bytes dst src) = length dst"
  by (simp add: copy_bytes_def Let_def min_def)

lemma store_length:
  "store buf i v = Ok r \<Longrightarrow> length r = length buf \<and> i < int (length buf)"
  by (auto simp: store_def split: if_splits)

lemma copy_to_slice_length:
  "copy_to_slice buf lo hi src = Ok r \<Longrightarrow> length r = length buf \<and> hi \<le> int (length buf)"
  by (auto simp: copy_to_slice_def slice_def length_copy_bytes split: if_splits)

lemma createResponse_Ok_length:
  assumes "createResponse q = Ok r"
  shows "33 \<le> length q"
  using assms unfolding createResponse_def Let_def
  by (elim and_then_OkE)
    (auto dest!: store_length copy_to_slice_length simp: length_copy_bytes)

lemma bit_int_0x8000: "bit (0x8000 :: int) n \<longleftrightarrow> n = 15"
proof -
  have "(0x8000 :: int) = push_bit 15 1" by simp
  moreover have "bit (push_bit 15 (1 :: int)) n \<longleftrightarrow> n = 15"
    by (simp only: bit_push_bit_iff bit_1_iff possible_bit_int) auto
  ultimately show ?thesis by (simp only:)
qed

lemma bit_int_0x80: "bit (0x80 :: int) n \<longleftrightarrow> n = 7"
proof -
  have "(0x80 :: int) = push_bit 7 1" by simp
  moreover have "bit (push_bit 7 (1 :: int)) n \<longleftrightarrow> n = 7"
    by (simp only: bit_push_bit_iff bit_1_iff possible_bit_int) auto
  ultimately show ?thesis by (simp only:)
qed

lemma be16_set_top: "be16 (hi OR 0x80) lo = be16 hi lo OR 0x8000"
  unfolding be16_def
  by (rule bit_word_eqI) (auto simp: bit_simps bit_int_0x80 bit_int_0x8000)

lemma bit_OR_8000: "bit ((w :: uint16) OR 0x8000) n \<longleftrightarrow> bit w n \<or> n = 15"
  by (auto simp: bit_simps bit_int_0x8000)

lemma createResponse_long:
  assumes "33 \<le> length q"
  shows "createResponse q = Ok (take 2 q @ [q ! 2 OR 0x80, q ! 3, 0x00, 0x01] @ take 6 (drop 6 q)
      @ [0x0c] @ bytes_of ''localdns'' @ take 4 (drop 21 q) @ [0x02] @ bytes_of ''io''
      @ [0x00, 0x00, 0x01, 0x00, 0x01] @ drop 33 q)"
proof -
  from assms obtain b0 b1 b2 b3 b4 b5 b6 b7 b8 b9 b10 b11 b12 b13 b14 b15 b16 b17 b18 b19 b20
    b21 b22 b23 b24 b25 b26 b27 b28 b29 b30 b31 b32 rest
  where q: "q = b0 # b1 # b2 # b3 # b4 # b5 # b6 # b7 # b8 # b9 # b10 # b11 # b12 # b13 # b14 #
     b15 # b16 # b17 # b18 # b19 # b20 # b21 # b22 # b23 # b24 # b25 # b26 # b27 # b28 # b29 #
     b30 # b31 # b32 # rest" by (rule split33)
  show ?thesis unfolding q
    by (simp add: createResponse_def index_def store_def copy_bytes_def copy_to_slice_def
        slice_def bytes_of_def)
qed

lemma parse_response_question:
  assumes "33 \<le> length q"
  shows "parseQuestion (take 2 q @ [q ! 2 OR 0x80, q ! 3, 0x00, 0x01] @ take 6 (drop 6 q)
      @ [0x0c] @ bytes_of ''localdns'' @ take 4 (drop 21 q) @ [0x02] @ bytes_of ''io''
      @ [0x00, 0x00, 0x01, 0x00, 0x01] @ drop 33 q) 12
    = Some (Ok (''localdns'' @ string_of (take 4 (drop 21 q)) @ ''.io'', 1, 1, 21))"
proof -
  from assms obtain b0 b1 b2 b3 b4 b5 b6 b7 b8 b9 b10 b11 b12 b13 b14 b15 b16 b17 b18 b19 b20
    b21 b22 b23 b24 b25 b26 b27 b28 b29 b30 b31 b32 rest
  where q: "q = b0 # b1 # b2 # b3 # b4 # b5 # b6 # b7 # b8 # b9 # b10 # b11 # b12 # b13 # b14 #
     b15 # b16 # b17 # b18 # b19 # b20 # b21 # b22 # b23 # b24 # b25 # b26 # b27 # b28 # b29 #
     b30 # b31 # b32 # rest" by (rule split33)
  show ?thesis unfolding q
  by (simp add: parseQuestion_def parseDomainName_def parseDomainName_loop.simps
      parseDomainName_body_def index_def slice_def string_of_def bytes_of_def char_of_def bit_0 be16_def)
qed

lemmas eval_defs = createResponse_def index_def store_def copy_bytes_def copy_to_slice_def
  slice_def bytes_of_def string_of_def char_of_def bit_0 be16_def parseQuestion_def
  parseDomainName_def parseDomainName_loop.simps parseDomainName_body_def
  header_id_def header_flags_def header_qdcount_def

lemma createResponse_query_with:
  "createResponse (query_with a t) = Ok (response_with a)"
  by (simp add: query_with_def response_with_def eval_defs)

lemma parseQuestion_query_with:
  "parseQuestion (query_with a t) 12 = Some (Ok (''codecrafters.io'', be16 0 t, 1, 21))"
  by (simp add: query_with_def eval_defs)

lemma parseQuestion_response_with:
  "parseQuestion (response_with a) 12 = Some (Ok (''localdnsters.io'', 1, 1, 21))"
  by (simp add: response_with_def eval_defs)

lemma createResponse_Ok:
  assumes "createResponse q = Ok r"
  shows "r = take 2 q @ [q ! 2 OR 0x80, q ! 3, 0x00, 0x01] @ take 6 (drop 6 q)
      @ [0x0c] @ bytes_of ''localdns'' @ take 4 (drop 21 q) @ [0x02] @ bytes_of ''io''
      @ [0x00, 0x00, 0x01, 0x00, 0x01] @ drop 33 q"
  using createResponse_long[OF createResponse_Ok_length[OF assms]] assms by simp

lemma response_bytes:
  assumes "createResponse q = Ok r"
  shows "length r = length q"
    and "r ! 0 = q ! 0" and "r ! 1 = q ! 1" and "r ! 2 = q ! 2 OR 0x80" and "r ! 3 = q ! 3"
    and "r ! 4 = 0x00" and "r ! 5 = 0x01" and "r ! 6 = q ! 6" and "r ! 7 = q ! 7"
    and "r ! 8 = q ! 8" and "r ! 9 = q ! 9" and "r ! 10 = q ! 10" and "r ! 11 = q ! 11"
    and "drop 33 r = drop 33 q"
proof -
  note len = createResponse_Ok_length[OF assms]
  from len obtain b0 b1 b2 b3 b4 b5 b6 b7 b8 b9 b10 b11 b12 b13 b14 b15 b16 b17 b18 b19 b20
    b21 b22 b23 b24 b25 b26 b27 b28 b29 b30 b31 b32 rest
  where q: "q = b0 # b1 # b2 # b3 # b4 # b5 # b6 # b7 # b8 # b9 # b10 # b11 # b12 # b13 # b14 #
     b15 # b16 # b17 # b18 # b19 # b20 # b21 # b22 # b23 # b24 # b25 # b26 # b27 # b28 # b29 #
     b30 # b31 # b32 # rest" by (rule split33)
  note r = createResponse_Ok[OF assms]
  show "length r = length q"
    and "r ! 0 = q ! 0" and "r ! 1 = q ! 1" and "r ! 2 = q ! 2 OR 0x80" and "r ! 3 = q ! 3"
    and "r ! 4 = 0x00" and "r ! 5 = 0x01" and "r ! 6 = q ! 6" and "r ! 7 = q ! 7"
    and "r ! 8 = q ! 8" and "r ! 9 = q ! 9" and "r ! 10 = q ! 10" and "r ! 11 = q ! 11"
    and "drop 33 r = drop 33 q"
    unfolding r unfolding q by (simp_all add: bytes_of_def)
qed

lemma response_question:
  assumes "createResponse q = Ok r"
  shows "parseQuestion r 12
    = Some (Ok (''localdns'' @ string_of (take 4 (drop 21 q)) @ ''.io'', 1, 1, 21))"
  unfolding createResponse_Ok[OF assms]
  by (rule parse_response_question[OF createResponse_Ok_length[OF assms]])

lemma response_header:
  assumes "createResponse q = Ok r"
  shows "header_id r = header_id q" and "header_flags r = header_flags q OR 0x8000"
    and "header_qdcount r = 1"
  using response_bytes[OF assms]
  by (simp_all add: header_id_def header_flags_def header_qdcount_def be16_set_top)
    (simp add: be16_def)

section \<open>The response header\<close>

text \<open>
  C1, on the 5-byte datagram \<open>12 34 01 00 00\<close>: createResponse returns no response.
  The write \<open>response[5] = 0x01\<close> leaves the 5-byte buffer and panics, and nothing
  recovers the panic, so the computation ends there. HandleDNSPacket tests
  \<open>len(packet) < 12\<close> before it reads the header, and the decoders test every offset
  before they read; createResponse writes up to byte 32 with no test of the length.
\<close>

theorem createResponse_short_input_panics:
  "createResponse [0x12, 0x34, 0x01, 0x00, 0x00] = Panic"
  by (simp add: createResponse_def index_def store_def copy_bytes_def)

text \<open>
  C5, as stated, fails: the example query decodes, its AA bit is clear, and the flags of
  the response are \<open>0x8100\<close>, with AA (bit 10) still clear.
\<close>

theorem aa_not_set:
  "parseQuestion example_query 12 = Some (Ok (''codecrafters.io'', 1, 1, 21))
   \<and> createResponse example_query = Ok (response_with 0x00)
   \<and> header_flags (response_with 0x00) = 0x8100
   \<and> \<not> bit (header_flags (response_with 0x00)) 10"
  by (simp add: example_query_def createResponse_query_with parseQuestion_query_with)
    (simp add: response_with_def header_flags_def be16_def)

text \<open>
  C5, amended. In a response that createResponse returns, the ID is that of the query,
  QR is 1, every other flag bit (Opcode, AA, TC, RD, RA, Z and RCODE) is copied from the
  query, and so are NSCOUNT and ARCOUNT (bytes 8 to 11): AA is not set and the two
  counts are not cleared.
\<close>

theorem response_header_copied:
  assumes "createResponse query = Ok response"
  shows "header_id response = header_id query
    \<and> bit (header_flags response) 15
    \<and> (\<forall>n. n \<noteq> 15 \<longrightarrow> bit (header_flags response) n = bit (header_flags query) n)
    \<and> response ! 8 = query ! 8 \<and> response ! 9 = query ! 9
    \<and> response ! 10 = query ! 10 \<and> response ! 11 = query ! 11"
  using response_header(1,2)[OF assms] response_bytes(10-13)[OF assms]
  by (simp add: bit_OR_8000)

theorem response_header_copied_witness:
  "createResponse example_query = Ok (response_with 0x00)
    \<and> header_id (response_with 0x00) = header_id example_query
    \<and> bit (header_flags (response_with 0x00)) 15
    \<and> bit (header_flags (response_with 0x00)) 11 = bit (header_flags example_query) 11
    \<and> bit (header_flags (response_with 0x00)) 10 = bit (header_flags example_query) 10
    \<and> bit (header_flags (response_with 0x00)) 8 = bit (header_flags example_query) 8
    \<and> bit (header_flags (response_with 0x00)) 0 = bit (header_flags example_query) 0
    \<and> response_with 0x00 ! 8 = example_query ! 8 \<and> response_with 0x00 ! 9 = example_query ! 9
    \<and> response_with 0x00 ! 10 = example_query ! 10
    \<and> response_with 0x00 ! 11 = example_query ! 11"
  using response_header_copied[of example_query "response_with 0x00"]
  by (simp add: example_query_def createResponse_query_with)

section \<open>The question and the counts of the response\<close>

text \<open>
  C2, as stated, fails on the query it describes (ID \<open>0x1234\<close>, RD = 1, the one question
  \<open>(codecrafters.io, A, IN)\<close>): in the response ANCOUNT is 0, not 1; the message ends
  with its question, 12 + 21 bytes, so it holds no answer record; and the name of that
  question is not the name asked for.
\<close>

theorem example_query_gets_no_answer:
  "header_id example_query = 0x1234
   \<and> bit (header_flags example_query) 8
   \<and> header_qdcount example_query = 1
   \<and> parseQuestion example_query 12 = Some (Ok (''codecrafters.io'', 1, 1, 21))
   \<and> createResponse example_query = Ok (response_with 0x00)
   \<and> response_with 0x00 ! 6 = 0x00 \<and> response_with 0x00 ! 7 = 0x00
   \<and> parseQuestion (response_with 0x00) 12 = Some (Ok (''localdnsters.io'', 1, 1, 21))
   \<and> int (length (response_with 0x00)) = 12 + 21"
  by (simp add: example_query_def createResponse_query_with parseQuestion_response_with
      parseQuestion_query_with)
    (simp add: query_with_def response_with_def header_id_def header_flags_def
      header_qdcount_def be16_def bytes_of_def)

text \<open>
  C2, amended. For a query with ID \<open>0x1234\<close> and RD = 1, a response that createResponse
  returns has ID \<open>0x1234\<close>, QR = 1, RD = 1 and QDCOUNT = 1, and holds at offset 12 one
  question with QTYPE 1 and QCLASS 1. Its ANCOUNT is the one of the query, and no answer
  record is added: the response is as long as the query.
\<close>

theorem response_to_query_0x1234:
  assumes "createResponse query = Ok response"
    and "header_id query = 0x1234" and "bit (header_flags query) 8"
  shows "header_id response = 0x1234
    \<and> bit (header_flags response) 15
    \<and> bit (header_flags response) 8
    \<and> header_qdcount response = 1
    \<and> response ! 6 = query ! 6 \<and> response ! 7 = query ! 7
    \<and> (\<exists>name. parseQuestion response 12 = Some (Ok (name, 1, 1, 21)))
    \<and> length response = length query"
  using response_header[OF assms(1)] response_bytes(1,8,9)[OF assms(1)]
    response_question[OF assms(1)] assms(2,3)
  by (simp add: bit_OR_8000)

theorem response_to_query_0x1234_witness:
  "createResponse example_query = Ok (response_with 0x00)
    \<and> header_id example_query = 0x1234 \<and> bit (header_flags example_query) 8
    \<and> header_id (response_with 0x00) = 0x1234
    \<and> bit (header_flags (response_with 0x00)) 15
    \<and> bit (header_flags (response_with 0x00)) 8
    \<and> header_qdcount (response_with 0x00) = 1
    \<and> response_with 0x00 ! 6 = example_query ! 6 \<and> response_with 0x00 ! 7 = example_query ! 7
    \<and> (\<exists>name. parseQuestion (response_with 0x00) 12 = Some (Ok (name, 1, 1, 21)))
    \<and> length (response_with 0x00) = length example_query"
  using response_to_query_0x1234[of example_query "response_with 0x00"]
  by (simp add: example_query_def createResponse_query_with)
    (simp add: query_with_def header_id_def header_flags_def be16_def)

text \<open>
  C3, as stated, fails: for the 33-byte datagram whose ANCOUNT field is 1, the response
  has ANCOUNT 1, while the message is over after its one question (12 + 21 bytes) and so
  holds no answer record.
\<close>

theorem ancount_without_answer:
  "createResponse (query_with 0x01 0x01) = Ok (response_with 0x01)
   \<and> response_with 0x01 ! 6 = 0x00 \<and> response_with 0x01 ! 7 = 0x01
   \<and> header_qdcount (response_with 0x01) = 1
   \<and> parseQuestion (response_with 0x01) 12 = Some (Ok (''localdnsters.io'', 1, 1, 21))
   \<and> int (length (response_with 0x01)) = 12 + 21"
  by (simp add: createResponse_query_with parseQuestion_response_with)
    (simp add: response_with_def header_qdcount_def be16_def bytes_of_def)

text \<open>
  C3, amended. In a response that createResponse returns, QDCOUNT is 1 and one question
  is encoded, the 21 bytes at offset 12. ANCOUNT is copied from the query and the builder
  encodes no answer record: the response is as long as the query, and what follows the
  question is what the query holds from offset 33 on.
\<close>

theorem response_counts:
  assumes "createResponse query = Ok response"
  shows "header_qdcount response = 1
    \<and> (\<exists>name qtype qclass. parseQuestion response 12 = Some (Ok (name, qtype, qclass, 21)))
    \<and> response ! 6 = query ! 6 \<and> response ! 7 = query ! 7
    \<and> length response = length query
    \<and> drop (12 + 21) response = drop (12 + 21) query"
  using response_header(3)[OF assms] response_bytes(1,8,9,14)[OF assms]
    response_question[OF assms]
  by simp

theorem response_counts_witness:
  "createResponse (query_with 0x01 0x01) = Ok (response_with 0x01)
    \<and> header_qdcount (response_with 0x01) = 1
    \<and> (\<exists>name qtype qclass.
          parseQuestion (response_with 0x01) 12 = Some (Ok (name, qtype, qclass, 21)))
    \<and> response_with 0x01 ! 6 = query_with 0x01 0x01 ! 6
    \<and> response_with 0x01 ! 7 = query_with 0x01 0x01 ! 7
    \<and> length (response_with 0x01) = length (query_with 0x01 0x01)
    \<and> drop (12 + 21) (response_with 0x01) = drop (12 + 21) (query_with 0x01 0x01)"
  using response_counts[of "query_with 0x01 0x01" "response_with 0x01"]
  by (simp add: createResponse_query_with)





text \<open>
  C10, on the example query of 33 bytes: the question of the response decodes, with
  QTYPE 1 and QCLASS 1, but its name is \<open>localdnsters.io\<close>, not \<open>localdns.io\<close>. The
  builder writes the length byte \<open>0x0c\<close> (12) before the 8 bytes of \<open>localdns\<close>, so the
  first label runs on over bytes 21 to 24, which are still those of the query.
\<close>

theorem response_question_is_not_localdns_io:
  "33 \<le> length example_query
   \<and> createResponse example_query = Ok (response_with 0x00)
   \<and> parseQuestion (response_with 0x00) 12 = Some (Ok (''localdnsters.io'', 1, 1, 21))
   \<and> parseQuestion (response_with 0x00) 12 \<noteq> Some (Ok (''localdns.io'', 1, 1, 21))"
  by (simp add: example_query_def createResponse_query_with parseQuestion_response_with)
    (simp add: query_with_def bytes_of_def)

section \<open>Label lengths above 63\<close>

lemma top_bits_nonzero: "(b :: byte) AND 0xC0 = 0xC0 \<Longrightarrow> b \<noteq> 0 \<and> 192 \<le> uint b"
proof -
  assume a: "b AND 0xC0 = 0xC0"
  have "(0xC0 :: byte) \<le> b" 
    using word_and_le2[of b "0xC0"] a by simp
  then have "uint (0xC0 :: byte) \<le> uint b" by (simp add: word_le_def)
  then have "192 \<le> uint b" by simp
  moreover from this have "b \<noteq> 0" by auto
  ultimately show ?thesis by simp
qed

text \<open>
  C6, as stated, fails: a name whose one label has the length byte 64, followed by its
  64 bytes and the terminator, decodes; no error is returned.
\<close>

theorem label_of_64_bytes_decodes:
  "parseDomainName ([64] @ replicate 64 0x61 @ [0]) 0 = Some (Ok (replicate 64 CHR ''a'', 66))"
  by code_simp

text \<open>
  C6, amended. parseDomainName puts no bound on the length of a label: a name of one
  label of any length from 1 to 255 (so also 64 to 255), followed by the terminator,
  decodes to that label, wherever it stands in the packet; the bytes read are the label,
  its length byte and the terminator.
\<close>

theorem label_of_any_length_decodes:
  assumes "label \<noteq> []" and "length label \<le> 255"
  shows "parseDomainName (pre @ [of_nat (length label)] @ label @ [0] @ suf) (int (length pre))
    = Some (Ok (string_of label, int (length label) + 2))"
proof -
  let ?n = "of_nat (length label) :: byte"
  let ?packet = "pre @ [?n] @ label @ [0] @ suf"
  let ?pos = "int (length pre)"
  have un: "unat ?n = length label"
    using assms(2) by (simp add: unat_of_nat)
  then have ui: "uint ?n = int (length label)"
    by (simp add: uint_nat)
  have n0: "?n \<noteq> 0"
  proof
    assume "?n = 0"
    then have "unat ?n = 0" by (simp only: unat_0_iff)
    with un assms(1) show False by simp
  qed
  have at: "?packet ! nat ?pos = ?n" by (simp add: nth_append)
  have lab: "take (unat ?n) (drop (nat (?pos + 1)) ?packet) = label"
    unfolding un by (simp add: nat_add_distrib)
  have "parseDomainName_body ?packet ?pos [] 0
      = Next (?pos + 1 + int (length label)) (string_of label) (1 + int (length label))"
    unfolding body_Next_iff at lab ui using n0 by simp
  then have 1: "parseDomainName_loop ?packet ?pos [] 0
      = parseDomainName_loop ?packet (?pos + 1 + int (length label)) (string_of label)
          (1 + int (length label))"
    by (rule loop_Next)
  have z: "?packet ! nat (?pos + 1 + int (length label)) = 0"
    by (simp add: nth_append nat_add_distrib)
  have "parseDomainName_body ?packet (?pos + 1 + int (length label)) (string_of label)
          (1 + int (length label))
      = Exit (Ok (string_of label, int (length label) + 2))"
    unfolding body_Exit_Ok_iff z by simp
  then have 2: "parseDomainName_loop ?packet (?pos + 1 + int (length label)) (string_of label)
          (1 + int (length label)) = Some (Ok (string_of label, int (length label) + 2))"
    by (rule loop_Exit)
  show ?thesis
    unfolding parseDomainName_def 1 2 by simp
qed

theorem label_of_any_length_decodes_witness:
  "replicate 70 (0x62 :: byte) \<noteq> [] \<and> length (replicate 70 (0x62 :: byte)) \<le> 255
   \<and> parseDomainName
        ([0x07] @ [of_nat (length (replicate 70 (0x62 :: byte)))] @ replicate 70 0x62 @ [0]
          @ [0x09])
        (int (length [0x07 :: byte]))
      = Some (Ok (string_of (replicate 70 0x62), int (length (replicate 70 (0x62 :: byte))) + 2))"
  using label_of_any_length_decodes[of "replicate 70 0x62" "[0x07]" "[0x09]"]
  by simp

text \<open>
  C7, as stated, fails. In the first packet the byte \<open>0xC0\<close> at offset 0 and the byte
  after it would form a pointer to offset 97, not before the read position: decoding
  does not fail, it returns a label of 192 bytes. In the second, \<open>C0 00\<close> at offset 1
  would be a pointer back to the root name at offset 0: it is not followed, and decoding
  fails for want of 192 label bytes.
\<close>

theorem pointer_not_followed:
  "parseDomainName ([0xC0] @ replicate 192 0x61 @ [0]) 0
     = Some (Ok (replicate 192 CHR ''a'', 194))
   \<and> parseDomainName [0x00, 0xC0, 0x00] 1 = Some (Err IncompleteLabel)"
  by code_simp

text \<open>
  C7, amended. parseDomainName knows no compression pointer. Wherever its label loop
  meets a byte whose top two bits are 11, at the start offset or behind earlier labels,
  that byte is the length, 192 to 255, of an ordinary label: when the packet ends before
  that many bytes, decoding fails with "incomplete label"; otherwise the bytes after it
  are added to the name as a label and the loop goes on behind them. From every
  non-negative read position the loop, and from every non-negative offset the decoder,
  ends with a name or an error, never with a panic and never in an endless loop.
\<close>

theorem pointer_byte_is_label_length:
  "(0 \<le> pos \<and> pos < int (length packet) \<and> packet ! nat pos AND 0xC0 = 0xC0 \<longrightarrow>
      (int (length packet) < pos + 1 + uint (packet ! nat pos)
        \<longrightarrow> parseDomainName_loop packet pos domain bytesRead = Some (Err IncompleteLabel))
      \<and> (pos + 1 + uint (packet ! nat pos) \<le> int (length packet)
        \<longrightarrow> parseDomainName_loop packet pos domain bytesRead
            = parseDomainName_loop packet (pos + 1 + uint (packet ! nat pos))
                ((if domain \<noteq> [] then domain @ ''.'' else domain)
                  @ string_of (take (unat (packet ! nat pos)) (drop (nat (pos + 1)) packet)))
                (bytesRead + 1 + uint (packet ! nat pos))))
   \<and> (0 \<le> pos \<longrightarrow>
        (\<exists>v. parseDomainName_loop packet pos domain bytesRead = Some (Ok v))
        \<or> (\<exists>e. parseDomainName_loop packet pos domain bytesRead = Some (Err e)))
   \<and> (0 \<le> offset \<longrightarrow>
        (\<exists>v. parseDomainName packet offset = Some (Ok v))
        \<or> (\<exists>e. parseDomainName packet offset = Some (Err e)))
   \<and> (offset < int (length packet) \<longrightarrow>
        parseDomainName packet offset = parseDomainName_loop packet offset [] 0)"
proof -
  let ?b = "packet ! nat pos"
  have short: "parseDomainName_loop packet pos domain bytesRead = Some (Err IncompleteLabel)"
    if "0 \<le> pos" "pos < int (length packet)" "?b AND 0xC0 = 0xC0"
      "int (length packet) < pos + 1 + uint ?b"
  proof -
    note nz = top_bits_nonzero[OF that(3)]
    have "parseDomainName_body packet pos domain bytesRead = Exit (Err IncompleteLabel)"
      using that(1,2,4) nz by (simp add: parseDomainName_body_def index_def uint_0_iff)
    then show ?thesis by (rule loop_Exit)
  qed
  have long: "parseDomainName_loop packet pos domain bytesRead
            = parseDomainName_loop packet (pos + 1 + uint ?b)
                ((if domain \<noteq> [] then domain @ ''.'' else domain)
                  @ string_of (take (unat ?b) (drop (nat (pos + 1)) packet)))
                (bytesRead + 1 + uint ?b)"
    if "0 \<le> pos" "pos < int (length packet)" "?b AND 0xC0 = 0xC0"
      "pos + 1 + uint ?b \<le> int (length packet)"
  proof -
    note nz = top_bits_nonzero[OF that(3)]
    have "parseDomainName_body packet pos domain bytesRead = Next (pos + 1 + uint ?b)
                ((if domain \<noteq> [] then domain @ ''.'' else domain)
                  @ string_of (take (unat ?b) (drop (nat (pos + 1)) packet)))
                (bytesRead + 1 + uint ?b)"
      unfolding body_Next_iff using that(1,2,4) nz by simp
    then show ?thesis by (rule loop_Next)
  qed
  have loop_ends: "(\<exists>v. parseDomainName_loop packet pos domain bytesRead = Some (Ok v))
        \<or> (\<exists>e. parseDomainName_loop packet pos domain bytesRead = Some (Err e))"
    if "0 \<le> pos"
  proof -
    obtain r where r: "parseDomainName_loop packet pos domain bytesRead = Some r"
      using loop_returns by blast
    with loop_no_panic[OF that, of packet domain bytesRead] show ?thesis by (cases r) auto
  qed
  have ends: "(\<exists>v. parseDomainName packet offset = Some (Ok v))
        \<or> (\<exists>e. parseDomainName packet offset = Some (Err e))" if "0 \<le> offset"
  proof -
    obtain r where r: "parseDomainName packet offset = Some r"
      using parseDomainName_returns by blast
    with parseDomainName_no_panic[OF that, of packet] show ?thesis by (cases r) auto
  qed
  have start: "parseDomainName packet offset = parseDomainName_loop packet offset [] 0"
    if "offset < int (length packet)"
    using that by (simp add: parseDomainName_def)
  from short long loop_ends ends start show ?thesis by blast
qed

theorem pointer_byte_is_label_length_witness:
  "(0::int) \<le> 4 \<and> (4::int) < int (length [0x03, 0x77, 0x77, 0x77, 0xC0, 0x00 :: byte])
   \<and> [0x03, 0x77, 0x77, 0x77, 0xC0, 0x00 :: byte] ! nat 4 AND 0xC0 = 0xC0
   \<and> int (length [0x03, 0x77, 0x77, 0x77, 0xC0, 0x00 :: byte])
        < 4 + 1 + uint ([0x03, 0x77, 0x77, 0x77, 0xC0, 0x00 :: byte] ! nat 4)
   \<and> parseDomainName_loop [0x03, 0x77, 0x77, 0x77, 0xC0, 0x00] 4 ''www'' 4
        = Some (Err IncompleteLabel)
   \<and> (0::int) \<le> 0
   \<and> parseDomainName [0x03, 0x77, 0x77, 0x77, 0xC0, 0x00] 0 = Some (Err IncompleteLabel)"
  using pointer_byte_is_label_length[where packet = "[0x03, 0x77, 0x77, 0x77, 0xC0, 0x00]"
      and pos = 4 and domain = "''www''" and bytesRead = 4 and offset = 0]
  by (simp add: parseDomainName_def parseDomainName_loop.simps parseDomainName_body_def
      index_def slice_def string_of_def char_of_def bit_0)

end
